theory Spec2Isabelle
  imports Main "HOL-Library.Word"
begin

section \<open>Data model of the secret plugin\<close>

text \<open>
  The Secret Manager plugin of \<^verbatim>\<open>pkg/plugins/secret/secret_manager/secret_manager.go\<close>.
  A Go pointer that may be \<^verbatim>\<open>nil\<close> is an \<open>option\<close>; \<^verbatim>\<open>[]byte\<close> is a list of bytes;
  a Go \<^verbatim>\<open>error\<close> that may be \<^verbatim>\<open>nil\<close> is an \<open>error option\<close>, and a
  \<^verbatim>\<open>(result, error)\<close> pair is a sum with the error on the left.
\<close>

type_synonym bytes = "8 word list"

text \<open>Modelled from the spec: the plugin types \<^verbatim>\<open>secret.Secret\<close>,
  \<^verbatim>\<open>secret.SecretVersion\<close> and the two responses are declared in the package
  \<^verbatim>\<open>plugins/secret\<close>, which is not under src/. The exposed contract gives their shape:
  \<^verbatim>\<open>Put(Secret{Name}, []byte) -> SecretPutResponse{SecretVersion{Secret{Name}, Version}}\<close> and
  \<^verbatim>\<open>Access(SecretVersion{Secret{Name}, Version}) -> SecretAccessResponse{SecretVersion, Value}\<close>.
  The source holds secrets and versions by pointer.\<close>

record Secret =
  Name :: string

record SecretVersion =
  Secret :: "Secret option"
  Version :: string

record SecretPutResponse =
  put_SecretVersion :: "SecretVersion option"

record SecretAccessResponse =
  access_SecretVersion :: "SecretVersion option"
  Value :: bytes

text \<open>Modelled from the spec: the messages of the backing store (package
  \<^verbatim>\<open>secretmanagerpb\<close>, not under src/), with the fields the service builds and reads. A
  container descriptor carries its resource name and its labels.\<close>

record pb_Secret =
  secret_Name :: string
  Labels :: "(string \<times> string) list"

record pb_SecretVersion =
  version_Name :: string

record SecretPayload =
  Data :: bytes

record ListSecretsRequest =
  list_Parent :: string
  Filter :: string

record AddSecretVersionRequest =
  add_Parent :: string
  add_Payload :: "SecretPayload option"

record AccessSecretVersionRequest =
  request_Name :: string

record AccessSecretVersionResponse =
  response_Name :: string
  Payload :: "SecretPayload option"

text \<open>\<^verbatim>\<open>(*SecretPayload).GetData\<close> is nil-safe: a nil payload has no data.\<close>

definition GetData :: "SecretPayload option \<Rightarrow> bytes" where
  "GetData p = (case p of None \<Rightarrow> [] | Some x \<Rightarrow> Data x)"

subsection \<open>Errors\<close>

datatype grpcCodes = grpcCodes_NotFound | grpcCodes_PermissionDenied | grpcCodes_Unavailable

text \<open>Go error values: \<^verbatim>\<open>fmt.Errorf\<close>, the sentinel \<^verbatim>\<open>iterator.Done\<close>,
  \<^verbatim>\<open>status.Error\<close>, and whatever else the backend client returns.\<close>

datatype error =
    Errorf string
  | Done
  | StatusError grpcCodes string
  | ClientError string

text \<open>Modelled from the spec: the error taxonomy of the package \<^verbatim>\<open>plugins/errors/codes\<close>,
  which is not under src/. The service itself names only \<open>InvalidArgument\<close> and \<open>Internal\<close>.\<close>

datatype codes = InvalidArgument | NotFound | Internal

datatype arg = SecretArg "Secret option" | VersionArg "SecretVersion option"

record PluginError =
  scope :: string
  args :: "(string \<times> arg) list"
  code :: codes
  msg :: string
  cause :: error

text \<open>Modelled from the spec: \<^verbatim>\<open>errors.ErrorsWithScope\<close> is not under src/. It wraps an error
  with the originating operation name and a structured context payload.\<close>

definition ErrorsWithScope ::
  "string \<Rightarrow> (string \<times> arg) list \<Rightarrow> codes \<Rightarrow> string \<Rightarrow> error \<Rightarrow> PluginError" where
  "ErrorsWithScope sc ar c m e = \<lparr>scope = sc, args = ar, code = c, msg = m, cause = e\<rparr>"

text \<open>A Go call either panics or returns.\<close>

datatype 'a outcome = Panic | Return 'a

subsection \<open>The backend client\<close>

text \<open>
  Modelled from the spec: the interface \<^verbatim>\<open>ifaces_gcloud_secret.SecretManagerClient\<close> is
  not under src/. It is the consumed capability of the specification: list containers by
  label filter, create a version under a container, fetch a version's payload. An interface
  is a record of operations, here over the backend's own state \<open>'b\<close>; a call returns an error
  or a result. A listing is the finite sequence its iterator yields, and \<^verbatim>\<open>Next\<close> on an
  exhausted iterator returns \<^verbatim>\<open>iterator.Done\<close>.
\<close>

type_synonym SecretIterator = "(error + pb_Secret) list"

definition Next :: "SecretIterator \<Rightarrow> (error + pb_Secret) \<times> SecretIterator" where
  "Next it = (case it of [] \<Rightarrow> (Inl Done, []) | x # rest \<Rightarrow> (x, rest))"

record 'b SecretManagerClient =
  ListSecrets :: "ListSecretsRequest \<Rightarrow> 'b \<Rightarrow> SecretIterator \<times> 'b"
  AddSecretVersion :: "AddSecretVersionRequest \<Rightarrow> 'b \<Rightarrow> (error + pb_SecretVersion) \<times> 'b"
  AccessSecretVersion ::
    "AccessSecretVersionRequest \<Rightarrow> 'b \<Rightarrow> (error + AccessSecretVersionResponse) \<times> 'b"

text \<open>The world outside the service: the backend and the trace of calls made to it. Every
  call of the service to its client goes through one of the three functions below, which
  run the client's operation and append the call to the trace.\<close>

datatype rpc =
    ListSecretsCall ListSecretsRequest
  | AddSecretVersionCall AddSecretVersionRequest
  | AccessSecretVersionCall AccessSecretVersionRequest

record 'b world =
  backend :: 'b
  calls :: "rpc list"

definition call_ListSecrets ::
  "'b SecretManagerClient \<Rightarrow> ListSecretsRequest \<Rightarrow> 'b world \<Rightarrow> SecretIterator \<times> 'b world" where
  "call_ListSecrets c req w =
     (case ListSecrets c req (backend w) of
        (it, b) \<Rightarrow> (it, \<lparr>backend = b, calls = calls w @ [ListSecretsCall req]\<rparr>))"

definition call_AddSecretVersion ::
  "'b SecretManagerClient \<Rightarrow> AddSecretVersionRequest \<Rightarrow> 'b world \<Rightarrow>
     (error + pb_SecretVersion) \<times> 'b world" where
  "call_AddSecretVersion c req w =
     (case AddSecretVersion c req (backend w) of
        (r, b) \<Rightarrow> (r, \<lparr>backend = b, calls = calls w @ [AddSecretVersionCall req]\<rparr>))"

definition call_AccessSecretVersion ::
  "'b SecretManagerClient \<Rightarrow> AccessSecretVersionRequest \<Rightarrow> 'b world \<Rightarrow>
     (error + AccessSecretVersionResponse) \<times> 'b world" where
  "call_AccessSecretVersion c req w =
     (case AccessSecretVersion c req (backend w) of
        (r, b) \<Rightarrow> (r, \<lparr>backend = b, calls = calls w @ [AccessSecretVersionCall req]\<rparr>))"

section \<open>The service\<close>

record 'b secretManagerSecretService =
  client :: "'b SecretManagerClient"
  projectId :: string
  stackName :: string
  cache :: "string \<rightharpoonup> string"

definition validateNewSecret :: "Secret option \<Rightarrow> bytes \<Rightarrow> error option" where
  "validateNewSecret sec val =
     (case sec of
        None \<Rightarrow> Some (Errorf ''provide non-nil secret'')
      | Some x \<Rightarrow>
          if length (Name x) = 0 then Some (Errorf ''provide non-blank secret name'')
          else if length val = 0 then Some (Errorf ''provide non-blank secret value'')
          else None)"

definition getParentName :: "'b secretManagerSecretService \<Rightarrow> string" where
  "getParentName s = ''projects/'' @ projectId s"

text \<open>The listing request that \<^verbatim>\<open>getSecret\<close> sends for a secret name.\<close>

definition listRequest :: "'b secretManagerSecretService \<Rightarrow> string \<Rightarrow> ListSecretsRequest" where
  "listRequest s n =
     \<lparr>list_Parent = getParentName s,
      Filter = ''labels.x-nitric-name='' @ n @ '' AND labels.x-nitric-stack='' @ stackName s\<rparr>"

text \<open>\<^verbatim>\<open>getSecret\<close>: list the containers carrying the name and stack labels, take the
  first, and remember its resource name in the cache. Reading \<^verbatim>\<open>sec.Name\<close> of a nil
  pointer panics before the request is sent.\<close>

definition getSecret ::
  "'b secretManagerSecretService \<Rightarrow> Secret option \<Rightarrow> 'b world \<Rightarrow>
     (error + pb_Secret) outcome \<times> 'b secretManagerSecretService \<times> 'b world" where
  "getSecret s sec w =
     (case sec of
        None \<Rightarrow> (Panic, s, w)
      | Some x \<Rightarrow>
          (case call_ListSecrets (client s) (listRequest s (Name x)) w of
             (iter, w1) \<Rightarrow>
               (case fst (Next iter) of
                  Inl err \<Rightarrow>
                    if err = Done
                    then (Return (Inl (StatusError grpcCodes_NotFound ''secret not found'')), s, w1)
                    else (Return (Inl err), s, w1)
                | Inr result \<Rightarrow>
                    (Return (Inr result),
                     s\<lparr>cache := (cache s)(Name x \<mapsto> secret_Name result)\<rparr>, w1))))"

definition buildSecretVersionName ::
  "'b secretManagerSecretService \<Rightarrow> SecretVersion option \<Rightarrow> 'b world \<Rightarrow>
     (error + string) outcome \<times> 'b secretManagerSecretService \<times> 'b world" where
  "buildSecretVersionName s sv w =
     (case sv of
        None \<Rightarrow> (Panic, s, w)
      | Some v \<Rightarrow>
          (case Secret v of
             None \<Rightarrow> (Panic, s, w)
           | Some x \<Rightarrow>
               if length (Name x) = 0 then (Return (Inl (Errorf ''provide non-blank name'')), s, w)
               else if length (Version v) = 0
               then (Return (Inl (Errorf ''provide non-blank version'')), s, w)
               else
                 (case cache s (Name x) of
                    Some parent \<Rightarrow> (Return (Inr (parent @ ''/versions/'' @ Version v)), s, w)
                  | None \<Rightarrow>
                      (case getSecret s (Secret v) w of
                         (Panic, s1, w1) \<Rightarrow> (Panic, s1, w1)
                       | (Return (Inl err), s1, w1) \<Rightarrow> (Return (Inl err), s1, w1)
                       | (Return (Inr realSec), s1, w1) \<Rightarrow>
                           (Return (Inr (secret_Name realSec @ ''/versions/'' @ Version v)),
                            s1, w1)))))"

text \<open>\<^verbatim>\<open>strings.Split(s, "/")\<close>: the pieces of \<open>s\<close> between the occurrences of the
  separator, which is a single character at the only call site.\<close>

fun strings_Split :: "string \<Rightarrow> char \<Rightarrow> string list" where
  "strings_Split [] sep = [[]]"
| "strings_Split (c # cs) sep =
     (if c = sep then [] # strings_Split cs sep
      else (case strings_Split cs sep of
              [] \<Rightarrow> [[c]]
            | p # ps \<Rightarrow> (c # p) # ps))"

definition Put ::
  "'b secretManagerSecretService \<Rightarrow> Secret option \<Rightarrow> bytes \<Rightarrow> 'b world \<Rightarrow>
     (PluginError + SecretPutResponse) outcome \<times> 'b secretManagerSecretService \<times> 'b world" where
  "Put s sec val w =
     (let newErr = ErrorsWithScope ''SecretManagerSecretService.Put'' [(''secret'', SecretArg sec)]
      in case validateNewSecret sec val of
           Some err \<Rightarrow> (Return (Inl (newErr InvalidArgument ''invalid secret'' err)), s, w)
         | None \<Rightarrow>
             (case getSecret s sec w of
                (Panic, s1, w1) \<Rightarrow> (Panic, s1, w1)
              | (Return (Inl err), s1, w1) \<Rightarrow>
                  (Return (Inl (newErr Internal ''error ensuring secret container exists'' err)),
                   s1, w1)
              | (Return (Inr parentSec), s1, w1) \<Rightarrow>
                  (case call_AddSecretVersion (client s1)
                          \<lparr>add_Parent = secret_Name parentSec,
                           add_Payload = Some \<lparr>Data = val\<rparr>\<rparr> w1 of
                     (Inl err, w2) \<Rightarrow>
                       (Return (Inl (newErr Internal ''failed to add new secret version'' err)),
                        s1, w2)
                   | (Inr verResult, w2) \<Rightarrow>
                       (let versionStringParts = strings_Split (version_Name verResult) CHR ''/''
                        in if versionStringParts = [] then (Panic, s1, w2)
                           else
                             (let version = last versionStringParts
                              in case sec of
                                   None \<Rightarrow> (Panic, s1, w2)
                                 | Some x \<Rightarrow>
                                     (Return (Inr \<lparr>put_SecretVersion =
                                         Some \<lparr>Secret = Some \<lparr>Name = Name x\<rparr>,
                                               Version = version\<rparr>\<rparr>),
                                      s1, w2))))))"

definition Access ::
  "'b secretManagerSecretService \<Rightarrow> SecretVersion option \<Rightarrow> 'b world \<Rightarrow>
     (PluginError + SecretAccessResponse) outcome \<times> 'b secretManagerSecretService \<times> 'b world"
  where
  "Access s sv w =
     (let newErr = ErrorsWithScope ''SecretManagerSecretService.Access'' [(''version'', VersionArg sv)]
      in case buildSecretVersionName s sv w of
           (Panic, s1, w1) \<Rightarrow> (Panic, s1, w1)
         | (Return (Inl err), s1, w1) \<Rightarrow>
             (Return (Inl (newErr InvalidArgument ''invalid secret version'' err)), s1, w1)
         | (Return (Inr fullName), s1, w1) \<Rightarrow>
             (case call_AccessSecretVersion (client s1) \<lparr>request_Name = fullName\<rparr> w1 of
                (Inl err, w2) \<Rightarrow>
                  (Return (Inl (newErr Internal ''failed to access secret version'' err)), s1, w2)
              | (Inr result, w2) \<Rightarrow>
                  (Return (Inr \<lparr>access_SecretVersion = sv, Value = GetData (Payload result)\<rparr>),
                   s1, w2)))"

section \<open>Vocabulary of the specification\<close>

text \<open>The trailing path segment of a resource name, in the specification's words: the
  substring after the last \<open>/\<close> (the whole name when it has none).\<close>

definition trailing_segment :: "string \<Rightarrow> string" where
  "trailing_segment s = rev (takeWhile (\<lambda>c. c \<noteq> CHR ''/'') (rev s))"

text \<open>
  What the service relies on from the backing store. Its addressing convention: a new
  version is named by the container reference, \<open>/versions/\<close> and a non-empty identifier
  without a slash. Its storage: a version just created can be fetched under the name that
  was returned for it, with the payload that was written.
\<close>

definition addressing_convention :: "'b SecretManagerClient \<Rightarrow> bool" where
  "addressing_convention c \<longleftrightarrow>
     (\<forall>req b ver b'. AddSecretVersion c req b = (Inr ver, b') \<longrightarrow>
        (\<exists>vid. vid \<noteq> [] \<and> CHR ''/'' \<notin> set vid \<and>
               version_Name ver = add_Parent req @ ''/versions/'' @ vid))"

definition stores_payload :: "'b SecretManagerClient \<Rightarrow> bool" where
  "stores_payload c \<longleftrightarrow>
     (\<forall>req b ver b'. AddSecretVersion c req b = (Inr ver, b') \<longrightarrow>
        (\<exists>resp b''. AccessSecretVersion c \<lparr>request_Name = version_Name ver\<rparr> b' = (Inr resp, b'') \<and>
                    GetData (Payload resp) = GetData (add_Payload req)))"

section \<open>An in-memory backend\<close>

text \<open>
  A backing store held in memory, on which the service can be run: containers with their
  labels, and version payloads under their resource names. Listing matches the label
  filter the service sends; versions are numbered in decimal.
\<close>

definition digit :: "nat \<Rightarrow> char" where
  "digit d = ''0123456789'' ! d"

function itoa :: "nat \<Rightarrow> string" where
  "itoa n = (if n < 10 then [digit n] else itoa (n div 10) @ [digit (n mod 10)])"
  by pat_completeness auto
termination
  by (relation "measure id") auto

declare itoa.simps [simp del]

record store =
  containers :: "pb_Secret list"
  payloads :: "(string \<times> bytes) list"

definition matches :: "ListSecretsRequest \<Rightarrow> pb_Secret \<Rightarrow> bool" where
  "matches req x =
     (case (map_of (Labels x) ''x-nitric-name'', map_of (Labels x) ''x-nitric-stack'') of
        (Some n, Some st) \<Rightarrow>
          Filter req = ''labels.x-nitric-name='' @ n @ '' AND labels.x-nitric-stack='' @ st \<and>
          take (length (list_Parent req) + 9) (secret_Name x) = list_Parent req @ ''/secrets/''
      | _ \<Rightarrow> False)"

definition store_client :: "store SecretManagerClient" where
  "store_client =
     \<lparr>ListSecrets = (\<lambda>req b. (map Inr (filter (matches req) (containers b)), b)),
      AddSecretVersion = (\<lambda>req b.
        if add_Parent req \<in> set (map secret_Name (containers b))
        then (let nm = add_Parent req @ ''/versions/'' @ itoa (Suc (length (payloads b)))
              in (Inr \<lparr>version_Name = nm\<rparr>,
                  b\<lparr>payloads := (nm, GetData (add_Payload req)) # payloads b\<rparr>))
        else (Inl (StatusError grpcCodes_NotFound ''secret not found''), b)),
      AccessSecretVersion = (\<lambda>req b.
        case map_of (payloads b) (request_Name req) of
          None \<Rightarrow> (Inl (StatusError grpcCodes_NotFound ''secret version not found''), b)
        | Some d \<Rightarrow> (Inr \<lparr>response_Name = request_Name req, Payload = Some \<lparr>Data = d\<rparr>\<rparr>, b))\<rparr>"

text \<open>A fresh service for project \<open>p\<close> and stack \<open>dev\<close>, as \<^verbatim>\<open>New\<close> builds it with an
  empty cache; a store without containers, one holding the container of \<open>db-pass\<close>, and
  one in which that container has been replaced by another with the same labels.\<close>

definition svc0 :: "store secretManagerSecretService" where
  "svc0 = \<lparr>client = store_client, projectId = ''p'', stackName = ''dev'', cache = Map.empty\<rparr>"

definition db_pass :: pb_Secret where
  "db_pass = \<lparr>secret_Name = ''projects/p/secrets/db-pass'',
              Labels = [(''x-nitric-name'', ''db-pass''), (''x-nitric-stack'', ''dev'')]\<rparr>"

definition db_pass_2 :: pb_Secret where
  "db_pass_2 = \<lparr>secret_Name = ''projects/p/secrets/db-pass-2'',
                Labels = [(''x-nitric-name'', ''db-pass''), (''x-nitric-stack'', ''dev'')]\<rparr>"

definition world0 :: "store world" where
  "world0 = \<lparr>backend = \<lparr>containers = [], payloads = []\<rparr>, calls = []\<rparr>"

definition world1 :: "store world" where
  "world1 = \<lparr>backend = \<lparr>containers = [db_pass], payloads = []\<rparr>, calls = []\<rparr>"

definition world2 :: "store world" where
  "world2 = \<lparr>backend = \<lparr>containers = [db_pass_2], payloads = []\<rparr>, calls = []\<rparr>"

definition s3cr3t :: bytes where
  "s3cr3t = [0x73, 0x33, 0x63, 0x72, 0x33, 0x74]"

text \<open>The service after it has resolved \<open>db-pass\<close>, the listing request it sends for that
  name, and the first store after one version has been written.\<close>

definition svc1 :: "store secretManagerSecretService" where
  "svc1 = svc0\<lparr>cache := [''db-pass'' \<mapsto> ''projects/p/secrets/db-pass'']\<rparr>"

definition db_pass_request :: ListSecretsRequest where
  "db_pass_request =
     \<lparr>list_Parent = ''projects/p'',
      Filter = ''labels.x-nitric-name=db-pass AND labels.x-nitric-stack=dev''\<rparr>"

definition world1_put :: "store world" where
  "world1_put =
     \<lparr>backend = \<lparr>containers = [db_pass],
                 payloads = [(''projects/p/secrets/db-pass/versions/1'', s3cr3t)]\<rparr>,
      calls = [ListSecretsCall db_pass_request,
               AddSecretVersionCall \<lparr>add_Parent = ''projects/p/secrets/db-pass'',
                                     add_Payload = Some \<lparr>Data = s3cr3t\<rparr>\<rparr>]\<rparr>"

text \<open>A service that has resolved another secret, \<open>api-key\<close>, before; the same service
  after it has resolved \<open>db-pass\<close> as well; and the first version of \<open>db-pass\<close>.\<close>

definition svc_api :: "store secretManagerSecretService" where
  "svc_api = svc0\<lparr>cache := [''api-key'' \<mapsto> ''projects/p/secrets/api-key'']\<rparr>"

definition svc_both :: "store secretManagerSecretService" where
  "svc_both = svc_api\<lparr>cache := (cache svc_api)(''db-pass'' \<mapsto> ''projects/p/secrets/db-pass'')\<rparr>"

definition db_pass_v1 :: SecretVersion where
  "db_pass_v1 = \<lparr>Secret = Some \<lparr>Name = ''db-pass''\<rparr>, Version = ''1''\<rparr>"

section \<open>Validation\<close>

lemma validateNewSecret_None_iff:
  "validateNewSecret sec val = None \<longleftrightarrow> (\<exists>x. sec = Some x \<and> Name x \<noteq> [] \<and> val \<noteq> [])"
  by (auto simp: validateNewSecret_def split: option.splits)

lemma GetData_Some [simp]: "GetData (Some p) = Data p"
  by (simp add: GetData_def)

section \<open>Resolution\<close>

text \<open>What \<^verbatim>\<open>getSecret\<close> returns, calls and stores, read off its definition.\<close>

lemma getSecret_None: "getSecret s None w = (Panic, s, w)"
  by (simp add: getSecret_def)

lemma getSecret_Some:
  "getSecret s (Some x) w =
     (case ListSecrets (client s) (listRequest s (Name x)) (backend w) of
        (it, b) \<Rightarrow>
          (case fst (Next it) of
             Inl err \<Rightarrow>
               (Return (Inl (if err = Done
                             then StatusError grpcCodes_NotFound ''secret not found'' else err)),
                s, \<lparr>backend = b, calls = calls w @ [ListSecretsCall (listRequest s (Name x))]\<rparr>)
           | Inr result \<Rightarrow>
               (Return (Inr result), s\<lparr>cache := (cache s)(Name x \<mapsto> secret_Name result)\<rparr>,
                \<lparr>backend = b, calls = calls w @ [ListSecretsCall (listRequest s (Name x))]\<rparr>)))"
  by (simp add: getSecret_def call_ListSecrets_def split: prod.splits sum.splits)

lemma getSecret_world:
  "getSecret s (Some x) w = (r, s1, w1) \<Longrightarrow>
     w1 = \<lparr>backend = snd (ListSecrets (client s) (listRequest s (Name x)) (backend w)),
           calls = calls w @ [ListSecretsCall (listRequest s (Name x))]\<rparr>"
  by (auto simp: getSecret_Some split: prod.splits sum.splits)

lemma getSecret_not_Panic: "fst (getSecret s (Some x) w) \<noteq> Panic"
  by (simp add: getSecret_Some split: prod.splits sum.splits)

lemma getSecret_Inr:
  "getSecret s (Some x) w = (Return (Inr result), s1, w1) \<Longrightarrow>
     s1 = s\<lparr>cache := (cache s)(Name x \<mapsto> secret_Name result)\<rparr> \<and>
     fst (Next (fst (ListSecrets (client s) (listRequest s (Name x)) (backend w)))) = Inr result"
  by (auto simp: getSecret_Some split: prod.splits sum.splits)

lemma getSecret_state:
  "getSecret s (Some x) w = (r, s1, w1) \<Longrightarrow>
     s1 = (case r of Return (Inr c) \<Rightarrow> s\<lparr>cache := (cache s)(Name x \<mapsto> secret_Name c)\<rparr> | _ \<Rightarrow> s)"
  by (auto simp: getSecret_Some split: prod.splits sum.splits)

lemma buildSecretVersionName_Some:
  "buildSecretVersionName s (Some \<lparr>Secret = Some x, Version = ver\<rparr>) w =
     (if Name x = [] then (Return (Inl (Errorf ''provide non-blank name'')), s, w)
      else if ver = [] then (Return (Inl (Errorf ''provide non-blank version'')), s, w)
      else case cache s (Name x) of
             Some parent \<Rightarrow> (Return (Inr (parent @ ''/versions/'' @ ver)), s, w)
           | None \<Rightarrow>
               (case getSecret s (Some x) w of
                  (Return (Inl err), s1, w1) \<Rightarrow> (Return (Inl err), s1, w1)
                | (Return (Inr realSec), s1, w1) \<Rightarrow>
                    (Return (Inr (secret_Name realSec @ ''/versions/'' @ ver)), s1, w1)
                | (Panic, s1, w1) \<Rightarrow> (Panic, s1, w1)))"
  by (simp add: buildSecretVersionName_def split: option.splits prod.splits outcome.splits sum.splits)

lemma buildSecretVersionName_not_Panic:
  "fst (buildSecretVersionName s (Some \<lparr>Secret = Some x, Version = ver\<rparr>) w) \<noteq> Panic"
  using getSecret_not_Panic[of s x w]
  by (auto simp: buildSecretVersionName_Some split: option.splits prod.splits outcome.splits sum.splits)

lemma buildSecretVersionName_state:
  "fst (snd (buildSecretVersionName s sv w)) =
     (case sv of
        None \<Rightarrow> s
      | Some v \<Rightarrow>
          (case Secret v of
             None \<Rightarrow> s
           | Some x \<Rightarrow>
               if Name x \<noteq> [] \<and> Version v \<noteq> [] \<and> cache s (Name x) = None
               then fst (snd (getSecret s (Some x) w)) else s))"
  by (simp add: buildSecretVersionName_def split: option.splits prod.splits outcome.splits sum.splits)

section \<open>Splitting a resource name\<close>

text \<open>\<^verbatim>\<open>strings.Split\<close> returns one piece more than there are separators, and its last
  piece is what follows the last separator.\<close>

lemma strings_Split_not_Nil: "strings_Split s sep \<noteq> []"
  by (induction s) (auto split: list.splits)

lemma length_strings_Split: "length (strings_Split s sep) = Suc (count_list s sep)"
  by (induction s) (auto split: list.splits)

lemma strings_Split_single: "sep \<notin> set s \<Longrightarrow> strings_Split s sep = [s]"
  by (induction s) auto

lemma last_strings_Split:
  "last (strings_Split s sep) = rev (takeWhile (\<lambda>c. c \<noteq> sep) (rev s))"
proof (induction s)
  case Nil
  show ?case by simp
next
  case (Cons c cs)
  show ?case
  proof (cases "sep \<in> set cs")
    case True
    then have "count_list cs sep \<noteq> 0" by (simp add: count_list_0_iff)
    then have "length (strings_Split cs sep) \<ge> 2" by (simp add: length_strings_Split)
    then obtain p q ps where ps: "strings_Split cs sep = p # q # ps"
      by (cases "strings_Split cs sep"; cases "tl (strings_Split cs sep)") auto
    with True Cons show ?thesis by (auto simp: takeWhile_append)
  next
    case False
    then show ?thesis by (auto simp: strings_Split_single takeWhile_append)
  qed
qed

lemma trailing_segment_no_slash: "CHR ''/'' \<notin> set (trailing_segment s)"
  by (auto simp: trailing_segment_def dest: set_takeWhileD)

lemma trailing_segment_suffix:
  "s = trailing_segment s \<or> (\<exists>pre. s = pre @ ''/'' @ trailing_segment s)"
proof (cases "CHR ''/'' \<in> set s")
  case False
  then have tw: "takeWhile (\<lambda>c. c \<noteq> CHR ''/'') (rev s) = rev s"
    by (intro takeWhile_eq_all_conv[THEN iffD2]) auto
  show ?thesis unfolding trailing_segment_def tw by simp
next
  case True
  then have "CHR ''/'' \<in> set (rev s)" by simp
  then obtain a b where ab: "rev s = a @ CHR ''/'' # b" "CHR ''/'' \<notin> set a"
    using split_list_first[of "CHR ''/''" "rev s"] by blast
  then have "trailing_segment s = rev a"
    by (simp add: trailing_segment_def takeWhile_append)
  moreover from ab have "s = rev b @ ''/'' @ rev a"
    by (metis append_Cons append_Nil append_assoc rev.simps(2) rev_append rev_rev_ident)
  ultimately show ?thesis by metis
qed

lemma trailing_segment_append:
  "CHR ''/'' \<notin> set vid \<Longrightarrow> trailing_segment (p @ ''/versions/'' @ vid) = vid"
  by (simp add: trailing_segment_def takeWhile_append)

section \<open>The two operations, case by case\<close>

lemma Put_valid:
  assumes "validateNewSecret (Some x) val = None"
  shows "Put s (Some x) val w =
     (case getSecret s (Some x) w of
        (Panic, s1, w1) \<Rightarrow> (Panic, s1, w1)
      | (Return (Inl err), s1, w1) \<Rightarrow>
          (Return (Inl \<lparr>scope = ''SecretManagerSecretService.Put'',
                        args = [(''secret'', SecretArg (Some x))], code = Internal,
                        msg = ''error ensuring secret container exists'', cause = err\<rparr>), s1, w1)
      | (Return (Inr parentSec), s1, w1) \<Rightarrow>
          (case AddSecretVersion (client s1)
                  \<lparr>add_Parent = secret_Name parentSec, add_Payload = Some \<lparr>Data = val\<rparr>\<rparr>
                  (backend w1) of
             (Inl err, b) \<Rightarrow>
               (Return (Inl \<lparr>scope = ''SecretManagerSecretService.Put'',
                        args = [(''secret'', SecretArg (Some x))], code = Internal,
                        msg = ''failed to add new secret version'', cause = err\<rparr>), s1,
                \<lparr>backend = b, calls = calls w1 @ [AddSecretVersionCall
                    \<lparr>add_Parent = secret_Name parentSec, add_Payload = Some \<lparr>Data = val\<rparr>\<rparr>]\<rparr>)
           | (Inr verResult, b) \<Rightarrow>
               (Return (Inr \<lparr>put_SecretVersion =
                   Some \<lparr>Secret = Some \<lparr>Name = Name x\<rparr>,
                         Version = trailing_segment (version_Name verResult)\<rparr>\<rparr>), s1,
                \<lparr>backend = b, calls = calls w1 @ [AddSecretVersionCall
                    \<lparr>add_Parent = secret_Name parentSec, add_Payload = Some \<lparr>Data = val\<rparr>\<rparr>]\<rparr>)))"
  using assms
  by (simp add: Put_def ErrorsWithScope_def call_AddSecretVersion_def Let_def
      strings_Split_not_Nil last_strings_Split trailing_segment_def
      split: prod.splits outcome.splits sum.splits)

lemma Put_Return_Inr:
  assumes put: "Put s sec val w = (Return (Inr resp), s1, w1)"
  obtains x parentSec wg ver b where
    "sec = Some x" and "validateNewSecret (Some x) val = None"
    and "getSecret s (Some x) w = (Return (Inr parentSec), s1, wg)"
    and "AddSecretVersion (client s1)
           \<lparr>add_Parent = secret_Name parentSec, add_Payload = Some \<lparr>Data = val\<rparr>\<rparr>
           (backend wg) = (Inr ver, b)"
    and "resp = \<lparr>put_SecretVersion = Some \<lparr>Secret = Some \<lparr>Name = Name x\<rparr>,
                   Version = trailing_segment (version_Name ver)\<rparr>\<rparr>"
    and "w1 = \<lparr>backend = b, calls = calls wg @ [AddSecretVersionCall
                 \<lparr>add_Parent = secret_Name parentSec, add_Payload = Some \<lparr>Data = val\<rparr>\<rparr>]\<rparr>"
proof -
  have "validateNewSecret sec val = None"
  proof (cases "validateNewSecret sec val")
    case (Some err)
    with put show ?thesis by (simp add: Put_def)
  qed simp
  then obtain x where x: "sec = Some x" and valid: "validateNewSecret (Some x) val = None"
    by (auto simp: validateNewSecret_None_iff)
  obtain g sg wg where g: "getSecret s (Some x) w = (g, sg, wg)"
    by (cases "getSecret s (Some x) w") auto
  from put have p: "Put s (Some x) val w = (Return (Inr resp), s1, w1)" by (simp add: x)
  show thesis
  proof (cases g)
    case Panic
    with p g show ?thesis by (simp add: Put_valid[OF valid])
  next
    case (Return r)
    show ?thesis
    proof (cases r)
      case (Inl err)
      with p g Return show ?thesis by (simp add: Put_valid[OF valid])
    next
      case (Inr parentSec)
      obtain a b where a: "AddSecretVersion (client sg)
           \<lparr>add_Parent = secret_Name parentSec, add_Payload = Some \<lparr>Data = val\<rparr>\<rparr>
           (backend wg) = (a, b)"
        by (cases "AddSecretVersion (client sg)
           \<lparr>add_Parent = secret_Name parentSec, add_Payload = Some \<lparr>Data = val\<rparr>\<rparr>
           (backend wg)") auto
      show ?thesis
      proof (cases a)
        case (Inl err)
        with p g Return Inr a show ?thesis by (simp add: Put_valid[OF valid])
      next
        case ver: (Inr ver)
        from p g Return Inr a ver have
          "resp = \<lparr>put_SecretVersion = Some \<lparr>Secret = Some \<lparr>Name = Name x\<rparr>,
                   Version = trailing_segment (version_Name ver)\<rparr>\<rparr>"
          "s1 = sg"
          "w1 = \<lparr>backend = b, calls = calls wg @ [AddSecretVersionCall
                 \<lparr>add_Parent = secret_Name parentSec, add_Payload = Some \<lparr>Data = val\<rparr>\<rparr>]\<rparr>"
          by (simp_all add: Put_valid[OF valid])
        with that[of x parentSec wg ver b] x valid g Return Inr a ver show ?thesis by simp
      qed
    qed
  qed
qed

lemma Put_state:
  "fst (snd (Put s sec val w)) =
     (if validateNewSecret sec val = None then fst (snd (getSecret s sec w)) else s)"
proof (cases "validateNewSecret sec val")
  case (Some err)
  then show ?thesis by (simp add: Put_def)
next
  case None
  then obtain x where x: "sec = Some x" and valid: "validateNewSecret (Some x) val = None"
    by (auto simp: validateNewSecret_None_iff)
  show ?thesis unfolding x Put_valid[OF valid] using valid
    by (simp split: prod.splits outcome.splits sum.splits)
qed

lemma Put_calls:
  assumes "validateNewSecret (Some x) val = None"
  shows "\<exists>rest. calls (snd (snd (Put s (Some x) val w))) =
           calls w @ ListSecretsCall (listRequest s (Name x)) # rest"
proof -
  obtain g sg wg where g: "getSecret s (Some x) w = (g, sg, wg)"
    by (cases "getSecret s (Some x) w") auto
  from getSecret_world[OF g]
  have wg: "calls wg = calls w @ [ListSecretsCall (listRequest s (Name x))]" by simp
  show ?thesis unfolding Put_valid[OF assms] g using wg
    by (simp split: prod.splits outcome.splits sum.splits)
qed

lemma Put_state_cases:
  "fst (snd (Put s sec val w)) = s \<or>
   (\<exists>x c. sec = Some x \<and> validateNewSecret sec val = None \<and>
          fst (getSecret s sec w) = Return (Inr c) \<and>
          fst (snd (Put s sec val w)) = s\<lparr>cache := (cache s)(Name x \<mapsto> secret_Name c)\<rparr>)"
proof (cases "validateNewSecret sec val")
  case (Some err)
  then show ?thesis by (simp add: Put_state)
next
  case None
  then obtain x where x: "sec = Some x" by (auto simp: validateNewSecret_None_iff)
  obtain g sg wg where g: "getSecret s (Some x) w = (g, sg, wg)"
    by (cases "getSecret s (Some x) w") auto
  from getSecret_state[OF g] None x g show ?thesis
    by (auto simp: Put_state split: outcome.splits sum.splits)
qed

lemma Access_cached:
  assumes "cache s (Name x) = Some parent" and "Name x \<noteq> []" and "ver \<noteq> []"
  shows "Access s (Some \<lparr>Secret = Some x, Version = ver\<rparr>) w =
     (case AccessSecretVersion (client s) \<lparr>request_Name = parent @ ''/versions/'' @ ver\<rparr> (backend w) of
        (Inl err, b) \<Rightarrow>
          (Return (Inl \<lparr>scope = ''SecretManagerSecretService.Access'',
                        args = [(''version'', VersionArg (Some \<lparr>Secret = Some x, Version = ver\<rparr>))],
                        code = Internal, msg = ''failed to access secret version'', cause = err\<rparr>),
           s, \<lparr>backend = b, calls = calls w @
                 [AccessSecretVersionCall \<lparr>request_Name = parent @ ''/versions/'' @ ver\<rparr>]\<rparr>)
      | (Inr result, b) \<Rightarrow>
          (Return (Inr \<lparr>access_SecretVersion = Some \<lparr>Secret = Some x, Version = ver\<rparr>,
                        Value = GetData (Payload result)\<rparr>),
           s, \<lparr>backend = b, calls = calls w @
                 [AccessSecretVersionCall \<lparr>request_Name = parent @ ''/versions/'' @ ver\<rparr>]\<rparr>))"
  using assms
  by (simp add: Access_def buildSecretVersionName_Some call_AccessSecretVersion_def
      ErrorsWithScope_def split: prod.splits sum.splits)

lemma Access_state:
  "fst (snd (Access s sv w)) = fst (snd (buildSecretVersionName s sv w))"
  by (simp add: Access_def Let_def split: prod.splits outcome.splits sum.splits)

lemma Access_state_cases:
  "fst (snd (Access s sv w)) = s \<or>
   (\<exists>v x c. sv = Some v \<and> Secret v = Some x \<and> Name x \<noteq> [] \<and> Version v \<noteq> [] \<and>
            cache s (Name x) = None \<and>
            fst (getSecret s (Some x) w) = Return (Inr c) \<and>
            fst (snd (Access s sv w)) = s\<lparr>cache := (cache s)(Name x \<mapsto> secret_Name c)\<rparr>)"
proof (cases sv)
  case None
  then show ?thesis by (simp add: Access_state buildSecretVersionName_state)
next
  case (Some v)
  show ?thesis
  proof (cases "Secret v")
    case None
    with Some show ?thesis by (simp add: Access_state buildSecretVersionName_state)
  next
    case sec: (Some x)
    obtain g sg wg where g: "getSecret s (Some x) w = (g, sg, wg)"
      by (cases "getSecret s (Some x) w") auto
    from getSecret_state[OF g] Some sec g show ?thesis
      by (auto simp: Access_state buildSecretVersionName_state split: outcome.splits sum.splits)
  qed
qed

section \<open>The in-memory backend keeps the contract\<close>

lemma digit_no_slash: "d < 10 \<Longrightarrow> digit d \<noteq> CHR ''/''"
proof -
  assume "d < 10"
  then have "d \<in> {0,1,2,3,4,5,6,7,8,9}" by auto
  then show ?thesis by (auto simp: digit_def)
qed

lemma itoa_nonempty: "itoa n \<noteq> []"
  by (subst itoa.simps) simp

lemma itoa_no_slash: "CHR ''/'' \<notin> set (itoa n)"
proof (induction n rule: itoa.induct)
  case (1 n)
  show ?case
  proof (cases "n < 10")
    case True
    then show ?thesis using digit_no_slash[of n] by (subst itoa.simps) auto
  next
    case False
    then show ?thesis using 1 digit_no_slash[of "n mod 10"] by (subst itoa.simps) auto
  qed
qed

lemma itoa_1: "itoa (Suc 0) = ''1''"
  by (simp add: itoa.simps digit_def)

lemma itoa_2: "itoa (Suc (Suc 0)) = ''2''"
  by (simp add: itoa.simps digit_def)

lemma store_client_addressing: "addressing_convention store_client"
  unfolding addressing_convention_def store_client_def
  by (auto simp: Let_def itoa_nonempty itoa_no_slash split: if_splits)

lemma store_client_stores: "stores_payload store_client"
  unfolding stores_payload_def store_client_def
  by (auto simp: Let_def split: if_splits)

lemmas service_defs =
  Put_def Access_def buildSecretVersionName_def getSecret_def validateNewSecret_def
  call_ListSecrets_def call_AddSecretVersion_def call_AccessSecretVersion_def
  listRequest_def getParentName_def Next_def ErrorsWithScope_def Let_def

lemmas store_defs =
  store_client_def matches_def svc0_def svc1_def db_pass_def db_pass_2_def
  world0_def world1_def world2_def world1_put_def db_pass_request_def s3cr3t_def itoa_1 itoa_2

lemma first_Put:
  "Put svc0 (Some \<lparr>Name = ''db-pass''\<rparr>) s3cr3t world1 =
     (Return (Inr \<lparr>put_SecretVersion =
                    Some \<lparr>Secret = Some \<lparr>Name = ''db-pass''\<rparr>, Version = ''1''\<rparr>\<rparr>),
      svc1, world1_put)"
  by (simp add: service_defs store_defs)

section \<open>The claims\<close>

subsection \<open>C1: Put for a name without a container\<close>

text \<open>When the listing for the name is empty, Put with valid arguments fails with the kind
  \<open>Internal\<close> and the cause \<open>NotFound\<close>, and the listing is its only backend call. This
  holds for every backend client.\<close>

lemma Put_empty_listing:
  assumes "validateNewSecret (Some x) val = None"
      and "fst (ListSecrets (client s) (listRequest s (Name x)) (backend w)) = []"
  shows "\<exists>e w1. Put s (Some x) val w = (Return (Inl e), s, w1) \<and>
           code e = Internal \<and>
           cause e = StatusError grpcCodes_NotFound ''secret not found'' \<and>
           calls w1 = calls w @ [ListSecretsCall (listRequest s (Name x))]"
proof -
  obtain it b where l: "ListSecrets (client s) (listRequest s (Name x)) (backend w) = (it, b)"
    by (cases "ListSecrets (client s) (listRequest s (Name x)) (backend w)")
  with assms(2) have it: "it = []" by simp
  have "getSecret s (Some x) w =
      (Return (Inl (StatusError grpcCodes_NotFound ''secret not found'')), s,
       \<lparr>backend = b, calls = calls w @ [ListSecretsCall (listRequest s (Name x))]\<rparr>)"
    by (simp add: getSecret_Some l it Next_def)
  then show ?thesis by (simp add: Put_valid[OF assms(1)])
qed

text \<open>
  Claim C1 says that a Put for a name whose container does not exist creates the container,
  tagged with the name and scope labels, and then appends a version. The comments in the
  source say the same (``Creates a new secret if one doesn't exist''), but \<^verbatim>\<open>getSecret\<close>
  only lists: on the store without containers, Put of \<open>db-pass\<close> returns the error kind
  \<open>Internal\<close> after a single listing call, the service and the store are as before, nothing
  is created and no version is written.
\<close>

theorem Put_without_container:
  "Put svc0 (Some \<lparr>Name = ''db-pass''\<rparr>) s3cr3t world0 =
     (Return (Inl \<lparr>scope = ''SecretManagerSecretService.Put'',
                   args = [(''secret'', SecretArg (Some \<lparr>Name = ''db-pass''\<rparr>))],
                   code = Internal,
                   msg = ''error ensuring secret container exists'',
                   cause = StatusError grpcCodes_NotFound ''secret not found''\<rparr>),
      svc0,
      \<lparr>backend = \<lparr>containers = [], payloads = []\<rparr>, calls = [ListSecretsCall db_pass_request]\<rparr>)"
  by (simp add: service_defs store_defs)

subsection \<open>C2: resolution of a cached name\<close>

text \<open>
  Claim C2 says that a name already in the cache is resolved from the cache without a backend
  listing, and that the second of two Puts for one name therefore does not list again. Only
  \<^verbatim>\<open>buildSecretVersionName\<close>, on the Access path, looks into the cache; Put calls
  \<^verbatim>\<open>getSecret\<close> directly. After a first Put has cached \<open>db-pass\<close>, a second Put for the same
  name sends the same listing request once more.
\<close>

theorem second_Put_lists_again:
  "Put svc0 (Some \<lparr>Name = ''db-pass''\<rparr>) s3cr3t world1 =
     (Return (Inr \<lparr>put_SecretVersion =
                    Some \<lparr>Secret = Some \<lparr>Name = ''db-pass''\<rparr>, Version = ''1''\<rparr>\<rparr>),
      svc1, world1_put) \<and>
   cache svc1 ''db-pass'' = Some ''projects/p/secrets/db-pass'' \<and>
   calls (snd (snd (Put svc1 (Some \<lparr>Name = ''db-pass''\<rparr>) s3cr3t world1_put))) =
     calls world1_put @
       [ListSecretsCall db_pass_request,
        AddSecretVersionCall \<lparr>add_Parent = ''projects/p/secrets/db-pass'',
                              add_Payload = Some \<lparr>Data = s3cr3t\<rparr>\<rparr>]"
proof (intro conjI)
  show "Put svc0 (Some \<lparr>Name = ''db-pass''\<rparr>) s3cr3t world1 =
     (Return (Inr \<lparr>put_SecretVersion =
                    Some \<lparr>Secret = Some \<lparr>Name = ''db-pass''\<rparr>, Version = ''1''\<rparr>\<rparr>),
      svc1, world1_put)"
    by (rule first_Put)
  show "cache svc1 ''db-pass'' = Some ''projects/p/secrets/db-pass''"
    by (simp add: svc1_def)
  show "calls (snd (snd (Put svc1 (Some \<lparr>Name = ''db-pass''\<rparr>) s3cr3t world1_put))) =
     calls world1_put @
       [ListSecretsCall db_pass_request,
        AddSecretVersionCall \<lparr>add_Parent = ''projects/p/secrets/db-pass'',
                              add_Payload = Some \<lparr>Data = s3cr3t\<rparr>\<rparr>]"
    by (simp add: service_defs store_defs)
qed

text \<open>
  Claim C2 as amended: for a non-empty name that is in the cache and a non-empty version,
  \<^verbatim>\<open>buildSecretVersionName\<close> returns the cached container reference followed by
  \<open>/versions/\<close> and the version, without any backend call and without changing the service,
  so that the only backend call of Access is the fetch of that version. Put does not consult
  the cache: with valid arguments its first backend call is the listing for the name, cached
  or not.
\<close>

theorem cached_resolution:
  assumes "cache s (Name x) = Some parent" and "Name x \<noteq> []" and "ver \<noteq> []" and "val \<noteq> []"
  shows "buildSecretVersionName s (Some \<lparr>Secret = Some x, Version = ver\<rparr>) w =
           (Return (Inr (parent @ ''/versions/'' @ ver)), s, w) \<and>
         (\<exists>r w1. Access s (Some \<lparr>Secret = Some x, Version = ver\<rparr>) w = (r, s, w1) \<and>
            calls w1 = calls w @
              [AccessSecretVersionCall \<lparr>request_Name = parent @ ''/versions/'' @ ver\<rparr>]) \<and>
         (\<exists>rest. calls (snd (snd (Put s (Some x) val w))) =
            calls w @ ListSecretsCall (listRequest s (Name x)) # rest)"
proof (intro conjI)
  show "buildSecretVersionName s (Some \<lparr>Secret = Some x, Version = ver\<rparr>) w =
           (Return (Inr (parent @ ''/versions/'' @ ver)), s, w)"
    using assms(1-3) by (simp add: buildSecretVersionName_Some)
  show "\<exists>r w1. Access s (Some \<lparr>Secret = Some x, Version = ver\<rparr>) w = (r, s, w1) \<and>
            calls w1 = calls w @
              [AccessSecretVersionCall \<lparr>request_Name = parent @ ''/versions/'' @ ver\<rparr>]"
    unfolding Access_cached[OF assms(1-3)]
    by (simp split: prod.splits sum.splits)
  have "validateNewSecret (Some x) val = None"
    using assms(2,4) by (simp add: validateNewSecret_None_iff)
  then show "\<exists>rest. calls (snd (snd (Put s (Some x) val w))) =
            calls w @ ListSecretsCall (listRequest s (Name x)) # rest"
    by (rule Put_calls)
qed

theorem cached_resolution_witness:
  "cache svc1 (Name \<lparr>Name = ''db-pass''\<rparr>) = Some ''projects/p/secrets/db-pass'' \<and>
   Name \<lparr>Name = ''db-pass''\<rparr> \<noteq> [] \<and> ''1'' \<noteq> [] \<and> s3cr3t \<noteq> [] \<and>
   (buildSecretVersionName svc1 (Some \<lparr>Secret = Some \<lparr>Name = ''db-pass''\<rparr>, Version = ''1''\<rparr>)
      world1_put =
      (Return (Inr (''projects/p/secrets/db-pass'' @ ''/versions/'' @ ''1'')), svc1, world1_put) \<and>
    (\<exists>r w1. Access svc1 (Some \<lparr>Secret = Some \<lparr>Name = ''db-pass''\<rparr>, Version = ''1''\<rparr>) world1_put =
              (r, svc1, w1) \<and>
            calls w1 = calls world1_put @
              [AccessSecretVersionCall
                 \<lparr>request_Name = ''projects/p/secrets/db-pass'' @ ''/versions/'' @ ''1''\<rparr>]) \<and>
    (\<exists>rest. calls (snd (snd (Put svc1 (Some \<lparr>Name = ''db-pass''\<rparr>) s3cr3t world1_put))) =
            calls world1_put @
              ListSecretsCall (listRequest svc1 (Name \<lparr>Name = ''db-pass''\<rparr>)) # rest))"
proof -
  have h1: "cache svc1 (Name \<lparr>Name = ''db-pass''\<rparr>) = Some ''projects/p/secrets/db-pass''"
    by (simp add: svc1_def)
  have h2: "Name \<lparr>Name = ''db-pass''\<rparr> \<noteq> []" by simp
  have h3: "''1'' \<noteq> []" by simp
  have h4: "s3cr3t \<noteq> []" by (simp add: s3cr3t_def)
  show ?thesis
    by (rule conjI[OF h1 conjI[OF h2 conjI[OF h3 conjI[OF h4
          cached_resolution[OF h1 h2 h3 h4]]]]])
qed

subsection \<open>C3: what was put is what is read\<close>

text \<open>
  Claim C3: when Put of a secret with value \<open>val\<close> succeeds and returns the version id \<open>W\<close>,
  Access of that name and \<open>W\<close>, on the same service and the backend as Put left it, succeeds
  and returns exactly \<open>val\<close>. The backend is any client that keeps its addressing convention
  and returns what was stored. Put leaves the container reference in the cache, Access builds
  from it the very name the backend returned for the new version, and the payload comes back
  untouched.
\<close>

theorem Put_Access_roundtrip:
  assumes conv: "addressing_convention (client s)"
      and store: "stores_payload (client s)"
      and put: "Put s (Some x) val w = (Return (Inr resp), s1, w1)"
  shows "\<exists>W w2. resp = \<lparr>put_SecretVersion = Some \<lparr>Secret = Some \<lparr>Name = Name x\<rparr>, Version = W\<rparr>\<rparr> \<and>
           Access s1 (Some \<lparr>Secret = Some \<lparr>Name = Name x\<rparr>, Version = W\<rparr>) w1 =
             (Return (Inr \<lparr>access_SecretVersion =
                            Some \<lparr>Secret = Some \<lparr>Name = Name x\<rparr>, Version = W\<rparr>,
                          Value = val\<rparr>), s1, w2)"
  using put
proof (rule Put_Return_Inr)
  fix x' parentSec wg ver b
  assume x': "Some x = Some x'"
    and valid': "validateNewSecret (Some x') val = None"
    and g': "getSecret s (Some x') w = (Return (Inr parentSec), s1, wg)"
    and a: "AddSecretVersion (client s1)
              \<lparr>add_Parent = secret_Name parentSec, add_Payload = Some \<lparr>Data = val\<rparr>\<rparr>
              (backend wg) = (Inr ver, b)"
    and r': "resp = \<lparr>put_SecretVersion = Some \<lparr>Secret = Some \<lparr>Name = Name x'\<rparr>,
                      Version = trailing_segment (version_Name ver)\<rparr>\<rparr>"
    and w1: "w1 = \<lparr>backend = b, calls = calls wg @ [AddSecretVersionCall
                 \<lparr>add_Parent = secret_Name parentSec, add_Payload = Some \<lparr>Data = val\<rparr>\<rparr>]\<rparr>"
  from x' have xx: "x' = x" by simp
  from valid' xx have nonempty: "Name x \<noteq> []"
    by (simp add: validateNewSecret_None_iff)
  from g' xx have g: "getSecret s (Some x) w = (Return (Inr parentSec), s1, wg)" by simp
  from getSecret_Inr[OF g]
  have sg: "s1 = s\<lparr>cache := (cache s)(Name x \<mapsto> secret_Name parentSec)\<rparr>" by simp
  then have cl: "client s1 = client s" by simp
  from a cl have a': "AddSecretVersion (client s)
              \<lparr>add_Parent = secret_Name parentSec, add_Payload = Some \<lparr>Data = val\<rparr>\<rparr>
              (backend wg) = (Inr ver, b)" by simp
  from conv[unfolded addressing_convention_def, rule_format, OF a']
  obtain vid where vid: "vid \<noteq> []" "CHR ''/'' \<notin> set vid"
      and nm: "version_Name ver = secret_Name parentSec @ ''/versions/'' @ vid"
    by auto
  from vid(2) have W: "trailing_segment (version_Name ver) = vid"
    unfolding nm by (rule trailing_segment_append)
  from store[unfolded stores_payload_def, rule_format, OF a']
  obtain aresp b2 where
      acc: "AccessSecretVersion (client s) \<lparr>request_Name = version_Name ver\<rparr> b = (Inr aresp, b2)"
    and data: "GetData (Payload aresp) = GetData (Some \<lparr>Data = val\<rparr>)"
    by auto
  from data have data': "GetData (Payload aresp) = val" by (simp add: GetData_def)
  have cached: "cache s1 (Name \<lparr>Name = Name x\<rparr>) = Some (secret_Name parentSec)"
    by (simp add: sg)
  have ne: "Name \<lparr>Name = Name x\<rparr> \<noteq> []" using nonempty by simp
  have bw: "backend w1 = b" by (simp add: w1)
  have "Access s1 (Some \<lparr>Secret = Some \<lparr>Name = Name x\<rparr>, Version = vid\<rparr>) w1 =
      (Return (Inr \<lparr>access_SecretVersion = Some \<lparr>Secret = Some \<lparr>Name = Name x\<rparr>, Version = vid\<rparr>,
                    Value = val\<rparr>), s1,
       \<lparr>backend = b2, calls = calls w1 @
           [AccessSecretVersionCall \<lparr>request_Name = secret_Name parentSec @ ''/versions/'' @ vid\<rparr>]\<rparr>)"
    unfolding Access_cached[OF cached ne vid(1)] bw cl nm[symmetric] acc
    by (simp add: data')
  moreover have "resp = \<lparr>put_SecretVersion = Some \<lparr>Secret = Some \<lparr>Name = Name x\<rparr>, Version = vid\<rparr>\<rparr>"
    using r' xx W by simp
  ultimately show ?thesis by (intro exI conjI)
qed

theorem Put_Access_roundtrip_witness:
  "addressing_convention (client svc0) \<and> stores_payload (client svc0) \<and>
   Put svc0 (Some \<lparr>Name = ''db-pass''\<rparr>) s3cr3t world1 =
     (Return (Inr \<lparr>put_SecretVersion =
                    Some \<lparr>Secret = Some \<lparr>Name = ''db-pass''\<rparr>, Version = ''1''\<rparr>\<rparr>),
      svc1, world1_put) \<and>
   (\<exists>W w2. \<lparr>put_SecretVersion = Some \<lparr>Secret = Some \<lparr>Name = ''db-pass''\<rparr>, Version = ''1''\<rparr>\<rparr> =
             \<lparr>put_SecretVersion =
                Some \<lparr>Secret = Some \<lparr>Name = Name \<lparr>Name = ''db-pass''\<rparr>\<rparr>, Version = W\<rparr>\<rparr> \<and>
           Access svc1 (Some \<lparr>Secret = Some \<lparr>Name = Name \<lparr>Name = ''db-pass''\<rparr>\<rparr>, Version = W\<rparr>)
             world1_put =
             (Return (Inr \<lparr>access_SecretVersion =
                            Some \<lparr>Secret = Some \<lparr>Name = Name \<lparr>Name = ''db-pass''\<rparr>\<rparr>,
                                  Version = W\<rparr>,
                          Value = s3cr3t\<rparr>), svc1, w2))"
proof -
  have c: "client svc0 = store_client" by (simp add: svc0_def)
  have h1: "addressing_convention (client svc0)"
    unfolding c by (rule store_client_addressing)
  have h2: "stores_payload (client svc0)"
    unfolding c by (rule store_client_stores)
  show ?thesis
    by (rule conjI[OF h1 conjI[OF h2 conjI[OF first_Put
          Put_Access_roundtrip[OF h1 h2 first_Put]]]])
qed

subsection \<open>C4: Access of an unknown secret\<close>

text \<open>
  Claim C4 says that Access of a well-formed version of a secret whose listing is empty fails
  with the kind \<open>Internal\<close>. Access wraps every error of \<^verbatim>\<open>buildSecretVersionName\<close>, the
  \<open>NotFound\<close> status of \<^verbatim>\<open>getSecret\<close> included, as \<open>InvalidArgument\<close>. On the store without
  containers:
\<close>

theorem Access_unknown_is_InvalidArgument:
  "fst (Access svc0 (Some \<lparr>Secret = Some \<lparr>Name = ''db-pass''\<rparr>, Version = ''1''\<rparr>) world0) =
     Return (Inl \<lparr>scope = ''SecretManagerSecretService.Access'',
                  args = [(''version'',
                           VersionArg (Some \<lparr>Secret = Some \<lparr>Name = ''db-pass''\<rparr>,
                                             Version = ''1''\<rparr>))],
                  code = InvalidArgument,
                  msg = ''invalid secret version'',
                  cause = StatusError grpcCodes_NotFound ''secret not found''\<rparr>) \<and>
   InvalidArgument \<noteq> Internal"
  by (simp add: service_defs store_defs)

text \<open>
  Claim C4 as amended: for a non-empty name that is not in the cache and a non-empty version,
  when the listing for the name returns no container, Access fails with the kind
  \<open>InvalidArgument\<close>; the cause is the status \<open>NotFound\<close>, the service is unchanged, and
  the listing is the only backend call.
\<close>

theorem Access_unknown_secret:
  assumes "Secret v = Some x" and "Name x \<noteq> []" and "Version v \<noteq> []"
      and "cache s (Name x) = None"
      and "fst (ListSecrets (client s) (listRequest s (Name x)) (backend w)) = []"
  shows "\<exists>e w1. Access s (Some v) w = (Return (Inl e), s, w1) \<and>
           code e = InvalidArgument \<and>
           cause e = StatusError grpcCodes_NotFound ''secret not found'' \<and>
           calls w1 = calls w @ [ListSecretsCall (listRequest s (Name x))]"
proof -
  have v: "v = \<lparr>Secret = Some x, Version = Version v\<rparr>" using assms(1) by simp
  obtain it b where l: "ListSecrets (client s) (listRequest s (Name x)) (backend w) = (it, b)"
    by (cases "ListSecrets (client s) (listRequest s (Name x)) (backend w)")
  with assms(5) have it: "it = []" by simp
  have "getSecret s (Some x) w =
      (Return (Inl (StatusError grpcCodes_NotFound ''secret not found'')), s,
       \<lparr>backend = b, calls = calls w @ [ListSecretsCall (listRequest s (Name x))]\<rparr>)"
    by (simp add: getSecret_Some l it Next_def)
  then show ?thesis
    using assms(2-4)
    by (subst v) (simp add: Access_def buildSecretVersionName_Some ErrorsWithScope_def)
qed

theorem Access_unknown_secret_witness:
  "Secret \<lparr>Secret = Some \<lparr>Name = ''db-pass''\<rparr>, Version = ''1''\<rparr> = Some \<lparr>Name = ''db-pass''\<rparr> \<and>
   Name \<lparr>Name = ''db-pass''\<rparr> \<noteq> [] \<and>
   Version \<lparr>Secret = Some \<lparr>Name = ''db-pass''\<rparr>, Version = ''1''\<rparr> \<noteq> [] \<and>
   cache svc0 (Name \<lparr>Name = ''db-pass''\<rparr>) = None \<and>
   fst (ListSecrets (client svc0) (listRequest svc0 (Name \<lparr>Name = ''db-pass''\<rparr>))
          (backend world0)) = [] \<and>
   (\<exists>e w1. Access svc0 (Some \<lparr>Secret = Some \<lparr>Name = ''db-pass''\<rparr>, Version = ''1''\<rparr>) world0 =
             (Return (Inl e), svc0, w1) \<and>
           code e = InvalidArgument \<and>
           cause e = StatusError grpcCodes_NotFound ''secret not found'' \<and>
           calls w1 = calls world0 @
             [ListSecretsCall (listRequest svc0 (Name \<lparr>Name = ''db-pass''\<rparr>))])"
proof -
  have h1: "Secret \<lparr>Secret = Some \<lparr>Name = ''db-pass''\<rparr>, Version = ''1''\<rparr> =
            Some \<lparr>Name = ''db-pass''\<rparr>" by simp
  have h2: "Name \<lparr>Name = ''db-pass''\<rparr> \<noteq> []" by simp
  have h3: "Version \<lparr>Secret = Some \<lparr>Name = ''db-pass''\<rparr>, Version = ''1''\<rparr> \<noteq> []" by simp
  have h4: "cache svc0 (Name \<lparr>Name = ''db-pass''\<rparr>) = None" by (simp add: svc0_def)
  have h5: "fst (ListSecrets (client svc0) (listRequest svc0 (Name \<lparr>Name = ''db-pass''\<rparr>))
          (backend world0)) = []"
    by (simp add: svc0_def store_client_def world0_def)
  show ?thesis
    by (rule conjI[OF h1 conjI[OF h2 conjI[OF h3 conjI[OF h4 conjI[OF h5
          Access_unknown_secret[OF h1 h2 h3 h4 h5]]]]]])
qed

subsection \<open>C5: Put rejects invalid arguments before any backend call\<close>

text \<open>
  Claim C5: a Put whose secret is nil, whose name is empty or whose value is empty fails with
  the kind \<open>InvalidArgument\<close>. The service and the world are returned as they were: nothing is
  added to the trace of backend calls.
\<close>

theorem Put_invalid_argument:
  assumes "sec = None \<or> (\<exists>x. sec = Some x \<and> Name x = []) \<or> val = []"
  shows "\<exists>e. Put s sec val w = (Return (Inl e), s, w) \<and> code e = InvalidArgument"
proof -
  from assms have "validateNewSecret sec val \<noteq> None"
    by (auto simp: validateNewSecret_None_iff)
  then obtain err where "validateNewSecret sec val = Some err" by auto
  then show ?thesis by (simp add: Put_def ErrorsWithScope_def)
qed

theorem Put_invalid_argument_witness:
  "((None :: Secret option) = None \<or> (\<exists>x. None = Some x \<and> Name x = []) \<or> s3cr3t = []) \<and>
   (\<exists>e. Put svc0 None s3cr3t world1 = (Return (Inl e), svc0, world1) \<and> code e = InvalidArgument) \<and>
   (Some \<lparr>Name = ''''\<rparr> = None \<or> (\<exists>x. Some \<lparr>Name = ''''\<rparr> = Some x \<and> Name x = []) \<or> s3cr3t = []) \<and>
   (\<exists>e. Put svc0 (Some \<lparr>Name = ''''\<rparr>) s3cr3t world1 = (Return (Inl e), svc0, world1) \<and>
        code e = InvalidArgument) \<and>
   (Some \<lparr>Name = ''db-pass''\<rparr> = None \<or>
    (\<exists>x. Some \<lparr>Name = ''db-pass''\<rparr> = Some x \<and> Name x = []) \<or> ([] :: bytes) = []) \<and>
   (\<exists>e. Put svc0 (Some \<lparr>Name = ''db-pass''\<rparr>) [] world1 = (Return (Inl e), svc0, world1) \<and>
        code e = InvalidArgument)"
proof -
  have h1: "(None :: Secret option) = None \<or> (\<exists>x. None = Some x \<and> Name x = []) \<or> s3cr3t = []"
    by simp
  have h2: "Some \<lparr>Name = ''''\<rparr> = None \<or> (\<exists>x. Some \<lparr>Name = ''''\<rparr> = Some x \<and> Name x = []) \<or>
            s3cr3t = []"
    by simp
  have h3: "Some \<lparr>Name = ''db-pass''\<rparr> = None \<or>
            (\<exists>x. Some \<lparr>Name = ''db-pass''\<rparr> = Some x \<and> Name x = []) \<or> ([] :: bytes) = []"
    by simp
  show ?thesis
    by (rule conjI[OF h1 conjI[OF Put_invalid_argument[OF h1]
          conjI[OF h2 conjI[OF Put_invalid_argument[OF h2]
          conjI[OF h3 Put_invalid_argument[OF h3]]]]]])
qed

subsection \<open>C6: Access with an empty name or an empty version\<close>

text \<open>When the version and its secret are both present, an empty name or an empty version
  identifier makes Access fail with the kind \<open>InvalidArgument\<close>; the service and the world
  are returned as they were, so no backend call is made.\<close>

lemma Access_invalid_argument:
  assumes "Secret v = Some x" and "Name x = [] \<or> Version v = []"
  shows "\<exists>e. Access s (Some v) w = (Return (Inl e), s, w) \<and> code e = InvalidArgument"
  using assms
  by (auto simp: Access_def buildSecretVersionName_def ErrorsWithScope_def)

text \<open>
  Claim C6 says that every Access with an empty name or an empty version identifier fails
  with the kind \<open>InvalidArgument\<close> and makes no backend call. \<^verbatim>\<open>buildSecretVersionName\<close>
  reads \<^verbatim>\<open>sv.Secret.Name\<close> before it checks anything, so Access of a version with an empty
  identifier and a nil secret panics and returns no error at all. On the Put path
  \<^verbatim>\<open>validateNewSecret\<close> checks the nil secret first; Access has no such check.
\<close>

theorem Access_nil_secret_empty_version:
  "Version \<lparr>Secret = None, Version = ''''\<rparr> = [] \<and>
   Access svc0 (Some \<lparr>Secret = None, Version = ''''\<rparr>) world1 = (Panic, svc0, world1)"
  by (simp add: Access_def buildSecretVersionName_def)

subsection \<open>C7: growth of the cache\<close>

text \<open>
  Claim C7 says that every operation preserves all the entries of the cache. Put writes the
  container it has just listed into the cache under its name, whatever was there. When the
  container of \<open>db-pass\<close> has been replaced in the backend after a first Put, a second Put
  replaces the cached reference: the entry that was there is not preserved.
\<close>

theorem Put_rebinds_cached_name:
  "Put svc0 (Some \<lparr>Name = ''db-pass''\<rparr>) s3cr3t world1 =
     (Return (Inr \<lparr>put_SecretVersion =
                    Some \<lparr>Secret = Some \<lparr>Name = ''db-pass''\<rparr>, Version = ''1''\<rparr>\<rparr>),
      svc1, world1_put) \<and>
   cache svc1 ''db-pass'' = Some ''projects/p/secrets/db-pass'' \<and>
   cache (fst (snd (Put svc1 (Some \<lparr>Name = ''db-pass''\<rparr>) s3cr3t world2))) ''db-pass'' =
     Some ''projects/p/secrets/db-pass-2'' \<and>
   \<not> cache svc1 \<subseteq>\<^sub>m cache (fst (snd (Put svc1 (Some \<lparr>Name = ''db-pass''\<rparr>) s3cr3t world2)))"
proof -
  have a: "cache svc1 ''db-pass'' = Some ''projects/p/secrets/db-pass''"
    by (simp add: svc1_def)
  have b: "cache (fst (snd (Put svc1 (Some \<lparr>Name = ''db-pass''\<rparr>) s3cr3t world2))) ''db-pass'' =
     Some ''projects/p/secrets/db-pass-2''"
    by (simp add: service_defs store_defs)
  have c: "\<not> cache svc1 \<subseteq>\<^sub>m cache (fst (snd (Put svc1 (Some \<lparr>Name = ''db-pass''\<rparr>) s3cr3t world2)))"
  proof
    assume "cache svc1 \<subseteq>\<^sub>m cache (fst (snd (Put svc1 (Some \<lparr>Name = ''db-pass''\<rparr>) s3cr3t world2)))"
    moreover have "''db-pass'' \<in> dom (cache svc1)" using a by auto
    ultimately have "cache svc1 ''db-pass'' =
        cache (fst (snd (Put svc1 (Some \<lparr>Name = ''db-pass''\<rparr>) s3cr3t world2))) ''db-pass''"
      unfolding map_le_def by blast
    with a b show False by simp
  qed
  from first_Put a b c show ?thesis by (intro conjI)
qed

text \<open>The operations on a service whose cache holds \<open>api-key\<close>, and on one whose cache
  holds \<open>api-key\<close> and \<open>db-pass\<close>: with the container of \<open>db-pass\<close> in the store, without
  it, and with the container replaced.\<close>

lemmas more_store_defs = svc_api_def svc_both_def db_pass_v1_def

lemma Put_from_api_key:
  "Put svc_api (Some \<lparr>Name = ''db-pass''\<rparr>) s3cr3t world1 =
     (Return (Inr \<lparr>put_SecretVersion =
                    Some \<lparr>Secret = Some \<lparr>Name = ''db-pass''\<rparr>, Version = ''1''\<rparr>\<rparr>),
      svc_both, world1_put)"
  by (simp add: service_defs store_defs more_store_defs)

lemma Access_from_api_key:
  "Access svc_api (Some db_pass_v1) world1 =
     (Return (Inl \<lparr>scope = ''SecretManagerSecretService.Access'',
                   args = [(''version'', VersionArg (Some db_pass_v1))],
                   code = Internal,
                   msg = ''failed to access secret version'',
                   cause = StatusError grpcCodes_NotFound ''secret version not found''\<rparr>),
      svc_both,
      \<lparr>backend = \<lparr>containers = [db_pass], payloads = []\<rparr>,
       calls = [ListSecretsCall db_pass_request,
                AccessSecretVersionCall
                  \<lparr>request_Name = ''projects/p/secrets/db-pass/versions/1''\<rparr>]\<rparr>)"
  by (simp add: service_defs store_defs more_store_defs)

lemma Put_unknown_from_api_key:
  "Put svc_api (Some \<lparr>Name = ''db-pass''\<rparr>) s3cr3t world0 =
     (Return (Inl \<lparr>scope = ''SecretManagerSecretService.Put'',
                   args = [(''secret'', SecretArg (Some \<lparr>Name = ''db-pass''\<rparr>))],
                   code = Internal,
                   msg = ''error ensuring secret container exists'',
                   cause = StatusError grpcCodes_NotFound ''secret not found''\<rparr>),
      svc_api,
      \<lparr>backend = \<lparr>containers = [], payloads = []\<rparr>, calls = [ListSecretsCall db_pass_request]\<rparr>)"
  by (simp add: service_defs store_defs more_store_defs)

lemma Access_unknown_from_api_key:
  "Access svc_api (Some db_pass_v1) world0 =
     (Return (Inl \<lparr>scope = ''SecretManagerSecretService.Access'',
                   args = [(''version'', VersionArg (Some db_pass_v1))],
                   code = InvalidArgument,
                   msg = ''invalid secret version'',
                   cause = StatusError grpcCodes_NotFound ''secret not found''\<rparr>),
      svc_api,
      \<lparr>backend = \<lparr>containers = [], payloads = []\<rparr>, calls = [ListSecretsCall db_pass_request]\<rparr>)"
  by (simp add: service_defs store_defs more_store_defs)

lemma Put_rebinding:
  "Put svc_both (Some \<lparr>Name = ''db-pass''\<rparr>) s3cr3t world2 =
     (Return (Inr \<lparr>put_SecretVersion =
                    Some \<lparr>Secret = Some \<lparr>Name = ''db-pass''\<rparr>, Version = ''1''\<rparr>\<rparr>),
      svc_both\<lparr>cache := (cache svc_both)(''db-pass'' \<mapsto> ''projects/p/secrets/db-pass-2'')\<rparr>,
      \<lparr>backend = \<lparr>containers = [db_pass_2],
                  payloads = [(''projects/p/secrets/db-pass-2/versions/1'', s3cr3t)]\<rparr>,
       calls = [ListSecretsCall db_pass_request,
                AddSecretVersionCall \<lparr>add_Parent = ''projects/p/secrets/db-pass-2'',
                                      add_Payload = Some \<lparr>Data = s3cr3t\<rparr>\<rparr>]\<rparr>)"
  by (simp add: service_defs store_defs more_store_defs)

lemma Access_cache_hit:
  "Access svc_both (Some db_pass_v1) world2 =
     (Return (Inl \<lparr>scope = ''SecretManagerSecretService.Access'',
                   args = [(''version'', VersionArg (Some db_pass_v1))],
                   code = Internal,
                   msg = ''failed to access secret version'',
                   cause = StatusError grpcCodes_NotFound ''secret version not found''\<rparr>),
      svc_both,
      \<lparr>backend = \<lparr>containers = [db_pass_2], payloads = []\<rparr>,
       calls = [AccessSecretVersionCall
                  \<lparr>request_Name = ''projects/p/secrets/db-pass/versions/1''\<rparr>]\<rparr>)"
  by (simp add: service_defs store_defs more_store_defs)

lemma getSecret_db_pass_world1:
  "fst (getSecret svc_api (Some \<lparr>Name = ''db-pass''\<rparr>) world1) = Return (Inr db_pass)"
  by (simp add: service_defs store_defs more_store_defs)

lemma getSecret_db_pass_world0:
  "fst (getSecret svc_api (Some \<lparr>Name = ''db-pass''\<rparr>) world0) =
     Return (Inl (StatusError grpcCodes_NotFound ''secret not found''))"
  by (simp add: service_defs store_defs more_store_defs)

lemma getSecret_db_pass_world2:
  "fst (getSecret svc_both (Some \<lparr>Name = ''db-pass''\<rparr>) world2) = Return (Inr db_pass_2)"
  by (simp add: service_defs store_defs more_store_defs)

text \<open>
  Claim C7 as amended. No operation removes a name from the cache. Access leaves every
  existing entry as it is, and Put leaves the entries of all names but its own as they are.
  The cache is written exactly on a successful resolution, reached by Put with valid arguments
  or by Access of a well-formed version whose name is not cached: the service is then the one
  before with the resolved name bound to the container that was listed. In Put this replaces
  an entry the name already had, and it leaves the cache as it was when the name was already
  bound to that container. In every other case, and whenever the resolution fails, an unknown
  name included, the service is returned unchanged.
\<close>

theorem cache_growth:
  assumes put: "Put s sec val w = (rp, sp, wp)"
      and acc: "Access s sv w = (ra, sa, wa)"
  shows "dom (cache s) \<subseteq> dom (cache sp) \<and>
         cache s \<subseteq>\<^sub>m cache sa \<and>
         (\<forall>k. (\<forall>x. sec = Some x \<longrightarrow> Name x \<noteq> k) \<longrightarrow> cache sp k = cache s k) \<and>
         (sp = s \<or>
          (\<exists>x c. sec = Some x \<and> validateNewSecret sec val = None \<and>
                 fst (getSecret s sec w) = Return (Inr c) \<and>
                 sp = s\<lparr>cache := (cache s)(Name x \<mapsto> secret_Name c)\<rparr>)) \<and>
         (sa = s \<or>
          (\<exists>v x c. sv = Some v \<and> Secret v = Some x \<and> Name x \<noteq> [] \<and> Version v \<noteq> [] \<and>
                   cache s (Name x) = None \<and>
                   fst (getSecret s (Some x) w) = Return (Inr c) \<and>
                   sa = s\<lparr>cache := (cache s)(Name x \<mapsto> secret_Name c)\<rparr>)) \<and>
         (\<forall>x c. sec = Some x \<and> validateNewSecret sec val = None \<and>
                fst (getSecret s sec w) = Return (Inr c) \<longrightarrow>
                sp = s\<lparr>cache := (cache s)(Name x \<mapsto> secret_Name c)\<rparr>) \<and>
         (\<forall>v x c. sv = Some v \<and> Secret v = Some x \<and> Name x \<noteq> [] \<and> Version v \<noteq> [] \<and>
                  cache s (Name x) = None \<and> fst (getSecret s (Some x) w) = Return (Inr c) \<longrightarrow>
                  sa = s\<lparr>cache := (cache s)(Name x \<mapsto> secret_Name c)\<rparr>) \<and>
         ((\<forall>c. fst (getSecret s sec w) \<noteq> Return (Inr c)) \<longrightarrow> sp = s) \<and>
         ((\<forall>v x c. sv = Some v \<and> Secret v = Some x \<longrightarrow>
                   fst (getSecret s (Some x) w) \<noteq> Return (Inr c)) \<longrightarrow> sa = s)"
proof -
  from put have sp: "sp = fst (snd (Put s sec val w))" by simp
  from acc have sa: "sa = fst (snd (Access s sv w))" by simp
  note pc = Put_state_cases[of s sec val w, folded sp]
  note ac = Access_state_cases[of s sv w, folded sa]
  have 1: "dom (cache s) \<subseteq> dom (cache sp)" using pc by auto
  have 2: "cache s \<subseteq>\<^sub>m cache sa" using ac by (auto simp: map_le_def)
  have 3: "\<forall>k. (\<forall>x. sec = Some x \<longrightarrow> Name x \<noteq> k) \<longrightarrow> cache sp k = cache s k"
    using pc by auto
  have 4: "\<forall>x c. sec = Some x \<and> validateNewSecret sec val = None \<and>
                fst (getSecret s sec w) = Return (Inr c) \<longrightarrow>
                sp = s\<lparr>cache := (cache s)(Name x \<mapsto> secret_Name c)\<rparr>"
  proof (intro allI impI, elim conjE)
    fix x c
    assume x: "sec = Some x" and v: "validateNewSecret sec val = None"
      and g: "fst (getSecret s sec w) = Return (Inr c)"
    obtain sg wg where g': "getSecret s (Some x) w = (Return (Inr c), sg, wg)"
      using g x by (cases "getSecret s (Some x) w") auto
    from getSecret_state[OF g'] g' v x
    show "sp = s\<lparr>cache := (cache s)(Name x \<mapsto> secret_Name c)\<rparr>"
      by (simp add: sp Put_state)
  qed
  have 5: "\<forall>v x c. sv = Some v \<and> Secret v = Some x \<and> Name x \<noteq> [] \<and> Version v \<noteq> [] \<and>
                  cache s (Name x) = None \<and> fst (getSecret s (Some x) w) = Return (Inr c) \<longrightarrow>
                  sa = s\<lparr>cache := (cache s)(Name x \<mapsto> secret_Name c)\<rparr>"
  proof (intro allI impI, elim conjE)
    fix v x c
    assume h: "sv = Some v" "Secret v = Some x" "Name x \<noteq> []" "Version v \<noteq> []"
      "cache s (Name x) = None"
      and g: "fst (getSecret s (Some x) w) = Return (Inr c)"
    obtain sg wg where g': "getSecret s (Some x) w = (Return (Inr c), sg, wg)"
      using g by (cases "getSecret s (Some x) w") auto
    from getSecret_state[OF g'] g' h
    show "sa = s\<lparr>cache := (cache s)(Name x \<mapsto> secret_Name c)\<rparr>"
      by (simp add: sa Access_state buildSecretVersionName_state)
  qed
  have 6: "(\<forall>c. fst (getSecret s sec w) \<noteq> Return (Inr c)) \<longrightarrow> sp = s"
    using pc by blast
  have 7: "(\<forall>v x c. sv = Some v \<and> Secret v = Some x \<longrightarrow>
                   fst (getSecret s (Some x) w) \<noteq> Return (Inr c)) \<longrightarrow> sa = s"
    using ac by blast
  from 1 2 3 pc ac 4 5 6 7 show ?thesis by (intro conjI)
qed

theorem cache_growth_witness:
  "Put svc_api (Some \<lparr>Name = ''db-pass''\<rparr>) s3cr3t world1 =
     (Return (Inr \<lparr>put_SecretVersion =
                    Some \<lparr>Secret = Some \<lparr>Name = ''db-pass''\<rparr>, Version = ''1''\<rparr>\<rparr>),
      svc_both, world1_put) \<and>
   Access svc_api (Some db_pass_v1) world1 =
     (Return (Inl \<lparr>scope = ''SecretManagerSecretService.Access'',
                   args = [(''version'', VersionArg (Some db_pass_v1))],
                   code = Internal,
                   msg = ''failed to access secret version'',
                   cause = StatusError grpcCodes_NotFound ''secret version not found''\<rparr>),
      svc_both,
      \<lparr>backend = \<lparr>containers = [db_pass], payloads = []\<rparr>,
       calls = [ListSecretsCall db_pass_request,
                AccessSecretVersionCall
                  \<lparr>request_Name = ''projects/p/secrets/db-pass/versions/1''\<rparr>]\<rparr>) \<and>
   cache svc_api ''api-key'' = Some ''projects/p/secrets/api-key'' \<and>
   cache svc_api ''db-pass'' = None \<and>
   dom (cache svc_api) \<subseteq> dom (cache svc_both) \<and>
   cache svc_api \<subseteq>\<^sub>m cache svc_both \<and>
   cache svc_both ''api-key'' = cache svc_api ''api-key'' \<and>
   svc_both = svc_api\<lparr>cache := (cache svc_api)(Name \<lparr>Name = ''db-pass''\<rparr> \<mapsto> secret_Name db_pass)\<rparr> \<and>
   Put svc_api (Some \<lparr>Name = ''db-pass''\<rparr>) s3cr3t world0 =
     (Return (Inl \<lparr>scope = ''SecretManagerSecretService.Put'',
                   args = [(''secret'', SecretArg (Some \<lparr>Name = ''db-pass''\<rparr>))],
                   code = Internal,
                   msg = ''error ensuring secret container exists'',
                   cause = StatusError grpcCodes_NotFound ''secret not found''\<rparr>),
      svc_api,
      \<lparr>backend = \<lparr>containers = [], payloads = []\<rparr>, calls = [ListSecretsCall db_pass_request]\<rparr>) \<and>
   Access svc_api (Some db_pass_v1) world0 =
     (Return (Inl \<lparr>scope = ''SecretManagerSecretService.Access'',
                   args = [(''version'', VersionArg (Some db_pass_v1))],
                   code = InvalidArgument,
                   msg = ''invalid secret version'',
                   cause = StatusError grpcCodes_NotFound ''secret not found''\<rparr>),
      svc_api,
      \<lparr>backend = \<lparr>containers = [], payloads = []\<rparr>, calls = [ListSecretsCall db_pass_request]\<rparr>) \<and>
   fst (getSecret svc_api (Some \<lparr>Name = ''db-pass''\<rparr>) world0) =
     Return (Inl (StatusError grpcCodes_NotFound ''secret not found'')) \<and>
   cache svc_api \<subseteq>\<^sub>m cache svc_api \<and>
   Put svc_both (Some \<lparr>Name = ''db-pass''\<rparr>) s3cr3t world2 =
     (Return (Inr \<lparr>put_SecretVersion =
                    Some \<lparr>Secret = Some \<lparr>Name = ''db-pass''\<rparr>, Version = ''1''\<rparr>\<rparr>),
      svc_both\<lparr>cache := (cache svc_both)(''db-pass'' \<mapsto> ''projects/p/secrets/db-pass-2'')\<rparr>,
      \<lparr>backend = \<lparr>containers = [db_pass_2],
                  payloads = [(''projects/p/secrets/db-pass-2/versions/1'', s3cr3t)]\<rparr>,
       calls = [ListSecretsCall db_pass_request,
                AddSecretVersionCall \<lparr>add_Parent = ''projects/p/secrets/db-pass-2'',
                                      add_Payload = Some \<lparr>Data = s3cr3t\<rparr>\<rparr>]\<rparr>) \<and>
   Access svc_both (Some db_pass_v1) world2 =
     (Return (Inl \<lparr>scope = ''SecretManagerSecretService.Access'',
                   args = [(''version'', VersionArg (Some db_pass_v1))],
                   code = Internal,
                   msg = ''failed to access secret version'',
                   cause = StatusError grpcCodes_NotFound ''secret version not found''\<rparr>),
      svc_both,
      \<lparr>backend = \<lparr>containers = [db_pass_2], payloads = []\<rparr>,
       calls = [AccessSecretVersionCall
                  \<lparr>request_Name = ''projects/p/secrets/db-pass/versions/1''\<rparr>]\<rparr>) \<and>
   cache svc_both ''api-key'' = Some ''projects/p/secrets/api-key'' \<and>
   cache svc_both ''db-pass'' = Some ''projects/p/secrets/db-pass'' \<and>
   dom (cache svc_both) \<subseteq>
     dom (cache (svc_both\<lparr>cache :=
        (cache svc_both)(''db-pass'' \<mapsto> ''projects/p/secrets/db-pass-2'')\<rparr>)) \<and>
   cache (svc_both\<lparr>cache :=
        (cache svc_both)(''db-pass'' \<mapsto> ''projects/p/secrets/db-pass-2'')\<rparr>) ''api-key'' =
     cache svc_both ''api-key'' \<and>
   svc_both\<lparr>cache := (cache svc_both)(''db-pass'' \<mapsto> ''projects/p/secrets/db-pass-2'')\<rparr> =
     svc_both\<lparr>cache := (cache svc_both)(Name \<lparr>Name = ''db-pass''\<rparr> \<mapsto> secret_Name db_pass_2)\<rparr> \<and>
   cache svc_both \<subseteq>\<^sub>m cache svc_both"
proof -
  note A = cache_growth[OF Put_from_api_key Access_from_api_key]
  note B = cache_growth[OF Put_unknown_from_api_key Access_unknown_from_api_key]
  note C = cache_growth[OF Put_rebinding Access_cache_hit]
  have valid: "validateNewSecret (Some \<lparr>Name = ''db-pass''\<rparr>) s3cr3t = None"
    by (simp add: validateNewSecret_def s3cr3t_def)
  have k1: "cache svc_api ''api-key'' = Some ''projects/p/secrets/api-key''"
    by (simp add: more_store_defs)
  have k2: "cache svc_api ''db-pass'' = None"
    by (simp add: more_store_defs svc0_def)
  have k3: "cache svc_both ''api-key'' = Some ''projects/p/secrets/api-key''"
    by (simp add: more_store_defs)
  have k4: "cache svc_both ''db-pass'' = Some ''projects/p/secrets/db-pass''"
    by (simp add: more_store_defs)
  from A have a1: "dom (cache svc_api) \<subseteq> dom (cache svc_both)"
    by (rule conjunct1)
  from A have a2: "cache svc_api \<subseteq>\<^sub>m cache svc_both"
    by (elim conjE)
  from A have "\<forall>k. (\<forall>x. Some \<lparr>Name = ''db-pass''\<rparr> = Some x \<longrightarrow> Name x \<noteq> k) \<longrightarrow>
                  cache svc_both k = cache svc_api k"
    by (elim conjE)
  then have a3: "cache svc_both ''api-key'' = cache svc_api ''api-key''"
    by simp
  from A have "\<forall>x c. Some \<lparr>Name = ''db-pass''\<rparr> = Some x \<and>
                  validateNewSecret (Some \<lparr>Name = ''db-pass''\<rparr>) s3cr3t = None \<and>
                  fst (getSecret svc_api (Some \<lparr>Name = ''db-pass''\<rparr>) world1) = Return (Inr c) \<longrightarrow>
                  svc_both = svc_api\<lparr>cache := (cache svc_api)(Name x \<mapsto> secret_Name c)\<rparr>"
    by (elim conjE)
  with valid getSecret_db_pass_world1
  have a4: "svc_both =
      svc_api\<lparr>cache := (cache svc_api)(Name \<lparr>Name = ''db-pass''\<rparr> \<mapsto> secret_Name db_pass)\<rparr>"
    by blast
  from B have b1: "cache svc_api \<subseteq>\<^sub>m cache svc_api"
    by (elim conjE)
  from C have c1: "dom (cache svc_both) \<subseteq>
     dom (cache (svc_both\<lparr>cache :=
        (cache svc_both)(''db-pass'' \<mapsto> ''projects/p/secrets/db-pass-2'')\<rparr>))"
    by (rule conjunct1)
  from C have "\<forall>k. (\<forall>x. Some \<lparr>Name = ''db-pass''\<rparr> = Some x \<longrightarrow> Name x \<noteq> k) \<longrightarrow>
      cache (svc_both\<lparr>cache :=
        (cache svc_both)(''db-pass'' \<mapsto> ''projects/p/secrets/db-pass-2'')\<rparr>) k =
      cache svc_both k"
    by (elim conjE)
  then have c2: "cache (svc_both\<lparr>cache :=
        (cache svc_both)(''db-pass'' \<mapsto> ''projects/p/secrets/db-pass-2'')\<rparr>) ''api-key'' =
     cache svc_both ''api-key''"
    by simp
  from C have "\<forall>x c. Some \<lparr>Name = ''db-pass''\<rparr> = Some x \<and>
                  validateNewSecret (Some \<lparr>Name = ''db-pass''\<rparr>) s3cr3t = None \<and>
                  fst (getSecret svc_both (Some \<lparr>Name = ''db-pass''\<rparr>) world2) = Return (Inr c) \<longrightarrow>
                  svc_both\<lparr>cache :=
                    (cache svc_both)(''db-pass'' \<mapsto> ''projects/p/secrets/db-pass-2'')\<rparr> =
                  svc_both\<lparr>cache := (cache svc_both)(Name x \<mapsto> secret_Name c)\<rparr>"
    by (elim conjE)
  with valid getSecret_db_pass_world2
  have c3: "svc_both\<lparr>cache := (cache svc_both)(''db-pass'' \<mapsto> ''projects/p/secrets/db-pass-2'')\<rparr> =
     svc_both\<lparr>cache := (cache svc_both)(Name \<lparr>Name = ''db-pass''\<rparr> \<mapsto> secret_Name db_pass_2)\<rparr>"
    by blast
  from C have c4: "cache svc_both \<subseteq>\<^sub>m cache svc_both"
    by (elim conjE)
  from Put_from_api_key Access_from_api_key k1 k2 a1 a2 a3 a4
    Put_unknown_from_api_key Access_unknown_from_api_key getSecret_db_pass_world0 b1
    Put_rebinding Access_cache_hit k3 k4 c1 c2 c3 c4
  show ?thesis by (intro conjI)
qed

subsection \<open>C8: Access of a nil version panics\<close>

text \<open>
  Claim C8: Access of a nil version, or of a version whose secret is nil, panics in
  \<^verbatim>\<open>buildSecretVersionName\<close> before anything is validated or sent, whatever the version
  identifier is; with both pointers present Access never panics and returns a response or an
  error.
\<close>

theorem Access_nil_panics:
  "Access s None w = (Panic, s, w) \<and>
   Access s (Some \<lparr>Secret = None, Version = ver\<rparr>) w = (Panic, s, w) \<and>
   fst (Access s (Some \<lparr>Secret = Some x, Version = ver\<rparr>) w) \<noteq> Panic"
proof (intro conjI)
  show "Access s None w = (Panic, s, w)"
    by (simp add: Access_def buildSecretVersionName_def)
  show "Access s (Some \<lparr>Secret = None, Version = ver\<rparr>) w = (Panic, s, w)"
    by (simp add: Access_def buildSecretVersionName_def)
  show "fst (Access s (Some \<lparr>Secret = Some x, Version = ver\<rparr>) w) \<noteq> Panic"
    using buildSecretVersionName_not_Panic[of s x ver w]
    by (auto simp: Access_def Let_def split: prod.splits outcome.splits sum.splits)
qed

theorem Access_nil_panics_witness:
  "Access svc0 None world1 = (Panic, svc0, world1) \<and>
   Access svc0 (Some \<lparr>Secret = None, Version = ''''\<rparr>) world1 = (Panic, svc0, world1) \<and>
   fst (Access svc0 (Some \<lparr>Secret = Some \<lparr>Name = ''''\<rparr>, Version = ''''\<rparr>) world1) \<noteq> Panic"
  by (rule Access_nil_panics)

subsection \<open>C10: the version identifier that Put returns\<close>

text \<open>
  Claim C10: when Put succeeds, its backend calls are the listing and one create-version call
  with the given payload; the version identifier in the response is the trailing path segment
  of the resource name which that create-version call returned, and the response holds the
  name of the secret and this identifier, nothing else.
\<close>

theorem Put_response_version:
  assumes "Put s sec val w = (Return (Inr resp), s1, w1)"
  shows "\<exists>x parent ver.
     sec = Some x \<and>
     calls w1 = calls w @
       [ListSecretsCall (listRequest s (Name x)),
        AddSecretVersionCall \<lparr>add_Parent = parent, add_Payload = Some \<lparr>Data = val\<rparr>\<rparr>] \<and>
     fst (AddSecretVersion (client s) \<lparr>add_Parent = parent, add_Payload = Some \<lparr>Data = val\<rparr>\<rparr>
            (snd (ListSecrets (client s) (listRequest s (Name x)) (backend w)))) = Inr ver \<and>
     resp = \<lparr>put_SecretVersion =
               Some \<lparr>Secret = Some \<lparr>Name = Name x\<rparr>,
                     Version = trailing_segment (version_Name ver)\<rparr>\<rparr>"
proof -
  from assms obtain x parentSec wg ver b where
      x: "sec = Some x"
    and g: "getSecret s (Some x) w = (Return (Inr parentSec), s1, wg)"
    and a: "AddSecretVersion (client s1)
              \<lparr>add_Parent = secret_Name parentSec, add_Payload = Some \<lparr>Data = val\<rparr>\<rparr>
              (backend wg) = (Inr ver, b)"
    and r: "resp = \<lparr>put_SecretVersion = Some \<lparr>Secret = Some \<lparr>Name = Name x\<rparr>,
                      Version = trailing_segment (version_Name ver)\<rparr>\<rparr>"
    and w1: "w1 = \<lparr>backend = b, calls = calls wg @ [AddSecretVersionCall
               \<lparr>add_Parent = secret_Name parentSec, add_Payload = Some \<lparr>Data = val\<rparr>\<rparr>]\<rparr>"
    by (rule Put_Return_Inr)
  from getSecret_Inr[OF g] have cl: "client s1 = client s" by simp
  from getSecret_world[OF g] have wg:
    "backend wg = snd (ListSecrets (client s) (listRequest s (Name x)) (backend w))"
    "calls wg = calls w @ [ListSecretsCall (listRequest s (Name x))]"
    by simp_all
  from a cl wg w1 r x show ?thesis
    by (intro exI[of _ x] exI[of _ "secret_Name parentSec"] exI[of _ ver]) simp
qed

theorem Put_response_version_witness:
  "Put svc0 (Some \<lparr>Name = ''db-pass''\<rparr>) s3cr3t world1 =
     (Return (Inr \<lparr>put_SecretVersion =
                    Some \<lparr>Secret = Some \<lparr>Name = ''db-pass''\<rparr>, Version = ''1''\<rparr>\<rparr>),
      svc1, world1_put) \<and>
   (\<exists>x parent ver.
     Some \<lparr>Name = ''db-pass''\<rparr> = Some x \<and>
     calls world1_put = calls world1 @
       [ListSecretsCall (listRequest svc0 (Name x)),
        AddSecretVersionCall \<lparr>add_Parent = parent, add_Payload = Some \<lparr>Data = s3cr3t\<rparr>\<rparr>] \<and>
     fst (AddSecretVersion (client svc0)
            \<lparr>add_Parent = parent, add_Payload = Some \<lparr>Data = s3cr3t\<rparr>\<rparr>
            (snd (ListSecrets (client svc0) (listRequest svc0 (Name x)) (backend world1)))) =
       Inr ver \<and>
     \<lparr>put_SecretVersion = Some \<lparr>Secret = Some \<lparr>Name = ''db-pass''\<rparr>, Version = ''1''\<rparr>\<rparr> =
       \<lparr>put_SecretVersion =
          Some \<lparr>Secret = Some \<lparr>Name = Name x\<rparr>,
                Version = trailing_segment (version_Name ver)\<rparr>\<rparr>)"
  by (rule conjI[OF first_Put Put_response_version[OF first_Put]])

end
